theory Spec2Isabelle
  imports Complex_Main "HOL-Library.Log_Nat"
begin

section \<open>The quiz component of \<^verbatim>\<open>src/app/(tabs)/index.tsx\<close>\<close>

text \<open>
  The component \<^verbatim>\<open>QuizApp\<close> keeps its data in React state variables and changes
  them from four kinds of callbacks: button presses, the one-second timer, the
  half-second timer that \<^verbatim>\<open>handleAnswerSelect\<close> starts, and the listener on
  the remote value \<^verbatim>\<open>quiz\<close>. The embedding keeps the state variables in one
  record, writes every callback as a function on that record, and keeps what lies
  outside React (the timers that are waiting, the objects pushed under
  \<^verbatim>\<open>scores\<close>) in a second record around it.
\<close>

subsection \<open>Data\<close>

text \<open>The interface \<^verbatim>\<open>Question\<close>; \<^verbatim>\<open>correct\<close> is a JavaScript number.\<close>

record Question =
  question :: string
  options :: "string list"
  correct :: int

text \<open>
  An object \<^verbatim>\<open>Record<string, Question[]>\<close> is the list of its own
  properties, in the order in which \<^verbatim>\<open>Object.keys\<close> enumerates them.
\<close>

type_synonym QuizBank = "(string \<times> Question list) list"

text \<open>
  What \<^verbatim>\<open>snapshot.val()\<close> hands to the listener: nothing (a falsy value), an
  array, or an object.
\<close>

datatype SnapshotVal = NoData | ArrayData "Question list" | ObjectData QuizBank

text \<open>The state variables declared with \<^verbatim>\<open>useState\<close>, under their own names.\<close>

record QuizState =
  allQuizData :: "QuizBank option"
  categories :: "string list"
  selectedCategory :: "string option"
  quizData :: "Question list"
  currentQuestionIndex :: nat
  answers :: "int list"
  score :: int
  isQuizCompleted :: bool
  timeLeft :: int
  selectedIndex :: "int option"

text \<open>
  The object that \<^verbatim>\<open>saveScoreToFirebase\<close> pushes. The field \<^verbatim>\<open>score\<close> of
  that object carries the name of the local variable it is read from,
  \<^verbatim>\<open>finalScore\<close>; the field \<^verbatim>\<open>date\<close> is the wall clock and is left out.
\<close>

record ScoreRecord =
  category :: "string option"
  finalScore :: int
  totalQuestions :: nat

text \<open>
  The component in its surroundings: the state of the last render, the
  \<^verbatim>\<open>setTimeout(..., 500)\<close> callbacks that have been started and have not run
  yet (each with the option index it was called with and the state of the render
  whose variables its closure reads), and the records pushed so far. All the
  half-second timers have the same delay, so they run in the order in which they
  were started.
\<close>

record World =
  ui :: QuizState
  timeouts :: "(int \<times> QuizState) list"
  scores :: "ScoreRecord list"

subsection \<open>Truthiness\<close>

text \<open>
  \<^verbatim>\<open>selectedCategory && ...\<close> and \<^verbatim>\<open>!selectedCategory\<close> test a value of type
  \<^verbatim>\<open>string | null\<close>: \<^verbatim>\<open>null\<close> and the empty string are falsy.
\<close>

fun truthy :: "string option \<Rightarrow> bool" where
  "truthy None = False"
| "truthy (Some c) = (c \<noteq> [])"

subsection \<open>The callbacks\<close>

definition restartQuiz :: "QuizState \<Rightarrow> QuizState" where
  "restartQuiz s =
     s\<lparr>currentQuestionIndex := 0, answers := [], score := 0,
       isQuizCompleted := False, timeLeft := 10, selectedIndex := None\<rparr>"

text \<open>
  \<^verbatim>\<open>allQuizData[category]\<close> is looked up among the own properties of the
  object (the names that every object inherits, \<^verbatim>\<open>constructor\<close> for one, are
  not keys of a bank and are left out); an array is truthy even when it is empty.
\<close>

definition handleCategorySelect :: "string \<Rightarrow> QuizState \<Rightarrow> QuizState" where
  "handleCategorySelect c s =
     (case allQuizData s of
        None \<Rightarrow> s
      | Some d \<Rightarrow>
          (case map_of d c of
             None \<Rightarrow> s
           | Some qs \<Rightarrow> restartQuiz (s\<lparr>selectedCategory := Some c, quizData := qs\<rparr>)))"

definition handleBackToCategories :: "QuizState \<Rightarrow> QuizState" where
  "handleBackToCategories s = restartQuiz (s\<lparr>selectedCategory := None, quizData := []\<rparr>)"

text \<open>
  The loop of \<^verbatim>\<open>saveScoreToFirebase\<close>: \<^verbatim>\<open>quizData.forEach((q, idx) => ...)\<close>
  with the counter \<^verbatim>\<open>finalScore\<close>. Reading \<^verbatim>\<open>finalAnswers[idx]\<close> beyond the
  end gives \<^verbatim>\<open>undefined\<close>, which is \<^verbatim>\<open>===\<close> to no number.
\<close>

fun forEachScore :: "Question list \<Rightarrow> nat \<Rightarrow> int list \<Rightarrow> int \<Rightarrow> int" where
  "forEachScore [] idx finalAnswers acc = acc"
| "forEachScore (q # qs) idx finalAnswers acc =
     forEachScore qs (Suc idx) finalAnswers
       (if idx < length finalAnswers \<and> finalAnswers ! idx = correct q then acc + 1 else acc)"

text \<open>
  \<^verbatim>\<open>saveScoreToFirebase\<close> reads \<^verbatim>\<open>quizData\<close> and \<^verbatim>\<open>selectedCategory\<close> from
  the render it was created in (\<open>cap\<close>), pushes the record and sets the score.
\<close>

definition saveScoreToFirebase :: "QuizState \<Rightarrow> int list \<Rightarrow> World \<Rightarrow> World" where
  "saveScoreToFirebase cap finalAnswers w =
     (let fs = forEachScore (quizData cap) 0 finalAnswers 0
      in w\<lparr>scores := scores w @
               [\<lparr>category = selectedCategory cap, finalScore = fs,
                 totalQuestions = length (quizData cap)\<rparr>],
           ui := (ui w)\<lparr>score := fs\<rparr>\<rparr>)"

text \<open>
  \<^verbatim>\<open>handleAnswerSelect(index)\<close> sets \<^verbatim>\<open>selectedIndex\<close> and starts the
  half-second timer; nothing else happens until that timer runs.
\<close>

definition handleAnswerSelect :: "int \<Rightarrow> World \<Rightarrow> World" where
  "handleAnswerSelect index w =
     w\<lparr>ui := (ui w)\<lparr>selectedIndex := Some index\<rparr>,
       timeouts := timeouts w @ [(index, ui w)]\<rparr>"

text \<open>
  The body of the half-second timer. Everything it reads (\<^verbatim>\<open>answers\<close>,
  \<^verbatim>\<open>score\<close>, \<^verbatim>\<open>currentQuestionIndex\<close>, \<^verbatim>\<open>quizData\<close>) is the value of the
  render in which \<^verbatim>\<open>handleAnswerSelect\<close> was called (\<open>cap\<close>); every setter
  stores a value, none takes an updater function. Setters called in one callback
  are applied together, the last call for a variable winning.
  \<^verbatim>\<open>quizData[currentQuestionIndex]?.correct\<close> is \<^verbatim>\<open>undefined\<close> beyond the end
  of the array, and \<^verbatim>\<open>quizData.length - 1\<close> is \<open>-1\<close> for the empty array.
\<close>

definition answerTimeout :: "int \<Rightarrow> QuizState \<Rightarrow> World \<Rightarrow> World" where
  "answerTimeout index cap w =
     (let newAnswers = answers cap @ [index];
          s1 = (ui w)\<lparr>answers := newAnswers\<rparr>;
          s2 = (if currentQuestionIndex cap < length (quizData cap)
                   \<and> index = correct (quizData cap ! currentQuestionIndex cap)
                then s1\<lparr>score := score cap + 1\<rparr> else s1)
      in if int (currentQuestionIndex cap) < int (length (quizData cap)) - 1
         then w\<lparr>ui := s2\<lparr>currentQuestionIndex := currentQuestionIndex cap + 1,
                         timeLeft := 10, selectedIndex := None\<rparr>\<rparr>
         else saveScoreToFirebase cap newAnswers
                (w\<lparr>ui := s2\<lparr>isQuizCompleted := True\<rparr>\<rparr>))"

text \<open>
  The timer effect. Its second branch runs when the effect runs with
  \<^verbatim>\<open>timeLeft === 0\<close>; the effect runs when one of \<^verbatim>\<open>timeLeft\<close>,
  \<^verbatim>\<open>isQuizCompleted\<close>, \<^verbatim>\<open>selectedCategory\<close> has changed. Every other callback
  that changes one of the three sets \<^verbatim>\<open>timeLeft\<close> to 10, clears the category
  or sets \<^verbatim>\<open>isQuizCompleted\<close>, so the branch is reached from the one-second
  timer only, and \<open>timerTick\<close> is that timer followed by the effect of the next
  render.
\<close>

definition timerEffect :: "World \<Rightarrow> World" where
  "timerEffect w =
     (if truthy (selectedCategory (ui w)) \<and> timeLeft (ui w) = 0 \<and> \<not> isQuizCompleted (ui w)
      then handleAnswerSelect (- 1) w else w)"

definition timerTick :: "World \<Rightarrow> World" where
  "timerTick w =
     (if truthy (selectedCategory (ui w)) \<and> timeLeft (ui w) > 0 \<and> \<not> isQuizCompleted (ui w)
      then timerEffect (w\<lparr>ui := (ui w)\<lparr>timeLeft := timeLeft (ui w) - 1\<rparr>\<rparr>)
      else w)"

text \<open>
  The listener on \<^verbatim>\<open>quiz\<close>. The array branch only writes to the console.
\<close>

definition onValue :: "SnapshotVal \<Rightarrow> QuizState \<Rightarrow> QuizState" where
  "onValue data s =
     (case data of
        NoData \<Rightarrow> s
      | ArrayData xs \<Rightarrow> s
      | ObjectData d \<Rightarrow> s\<lparr>allQuizData := Some d, categories := map fst d\<rparr>)"

subsection \<open>Events\<close>

text \<open>
  One event is one callback that runs to its end. \<open>Settle\<close> is the oldest
  waiting half-second timer running.
\<close>

datatype Event =
    RemoteValue SnapshotVal
  | CategorySelect string
  | BackToCategories
  | AnswerSelect int
  | Restart
  | Tick
  | Settle

fun step :: "Event \<Rightarrow> World \<Rightarrow> World" where
  "step (RemoteValue data) w = w\<lparr>ui := onValue data (ui w)\<rparr>"
| "step (CategorySelect c) w = w\<lparr>ui := handleCategorySelect c (ui w)\<rparr>"
| "step BackToCategories w = w\<lparr>ui := handleBackToCategories (ui w)\<rparr>"
| "step (AnswerSelect i) w = handleAnswerSelect i w"
| "step Restart w = w\<lparr>ui := restartQuiz (ui w)\<rparr>"
| "step Tick w = timerTick w"
| "step Settle w =
     (case timeouts w of
        [] \<Rightarrow> w
      | (i, cap) # rest \<Rightarrow> answerTimeout i cap (w\<lparr>timeouts := rest\<rparr>))"

fun run :: "Event list \<Rightarrow> World \<Rightarrow> World" where
  "run [] w = w"
| "run (e # es) w = run es (step e w)"

text \<open>
  The first render: the bundled \<^verbatim>\<open>QuizData\<close> (a constant of
  \<^verbatim>\<open>constants/QuizData\<close>, taken as a parameter) and the initial values of the
  \<^verbatim>\<open>useState\<close> calls.
\<close>

definition initialState :: "QuizBank \<Rightarrow> QuizState" where
  "initialState QuizData =
     \<lparr>allQuizData = Some QuizData, categories = map fst QuizData,
      selectedCategory = None, quizData = [], currentQuestionIndex = 0,
      answers = [], score = 0, isQuizCompleted = False, timeLeft = 10,
      selectedIndex = None\<rparr>"

definition initialWorld :: "QuizBank \<Rightarrow> World" where
  "initialWorld QuizData = \<lparr>ui = initialState QuizData, timeouts = [], scores = []\<rparr>"

subsection \<open>What is rendered\<close>

text \<open>
  The chain of \<^verbatim>\<open>if\<close>s that chooses the screen (\<^verbatim>\<open>loading\<close> is never set
  and stays false).
\<close>

datatype Screen = CategoryScreen | CompletedScreen | QuestionScreen

definition screen :: "QuizState \<Rightarrow> Screen" where
  "screen s =
     (if \<not> truthy (selectedCategory s) then CategoryScreen
      else if isQuizCompleted s then CompletedScreen
      else QuestionScreen)"

subsection \<open>The percentage of the completed screen\<close>

text \<open>
  \<^verbatim>\<open>(score / quizData.length * 100).toFixed(0)\<close> is computed on IEEE 754
  doubles: the quotient is rounded to the nearest double, the product of that
  double and 100 is rounded again, and \<^verbatim>\<open>toFixed(0)\<close> prints the integer
  nearest to the result, the larger one of two that are equally near. A finite
  double is kept as the rational number it is.

  \<open>binade x\<close> is the exponent \<open>e\<close> with \<open>2 ^ e \<le> x < 2 ^ (e + 1)\<close> of a positive
  \<open>x\<close>; a double in that range is a multiple of \<open>2 ^ (e - 52)\<close>, and
  \<open>roundDouble\<close> takes the nearest multiple, the even one of two that are equally
  near. The bounds of the exponent are left out: the operands here are a score
  and a length, integers below \<open>2 ^ 53\<close> in magnitude, and neither operation
  leaves the range of the normal doubles on them. A division by zero gives
  \<^verbatim>\<open>NaN\<close> for \<open>0 / 0\<close> and an infinity otherwise, which the multiplication
  keeps and \<^verbatim>\<open>toFixed\<close> prints by name.
\<close>

definition pow2 :: "int \<Rightarrow> rat" where
  "pow2 e = (if 0 \<le> e then 2 ^ nat e else 1 / 2 ^ nat (- e))"

definition binade :: "rat \<Rightarrow> int" where
  "binade x =
     (if 1 \<le> x then int (floorlog 2 (nat \<lfloor>x\<rfloor>)) - 1
      else - int (floorlog 2 (nat (\<lceil>1 / x\<rceil> - 1))))"

definition roundEven :: "rat \<Rightarrow> int" where
  "roundEven x =
     (let f = \<lfloor>x\<rfloor>; d = x - of_int f
      in if d < 1 / 2 then f else if 1 / 2 < d then f + 1 else if even f then f else f + 1)"

definition roundDouble :: "rat \<Rightarrow> rat" where
  "roundDouble x =
     (if x = 0 then 0
      else let u = pow2 (binade \<bar>x\<bar> - 52)
           in sgn x * of_int (roundEven (\<bar>x\<bar> / u)) * u)"

datatype JsNumber = NaN | PosInfinity | NegInfinity | Finite rat

definition jsDivide :: "int \<Rightarrow> nat \<Rightarrow> JsNumber" where
  "jsDivide a b =
     (if b = 0 then (if a = 0 then NaN else if 0 < a then PosInfinity else NegInfinity)
      else Finite (roundDouble (of_int a / of_nat b)))"

fun jsTimes100 :: "JsNumber \<Rightarrow> JsNumber" where
  "jsTimes100 (Finite r) = Finite (roundDouble (r * 100))"
| "jsTimes100 x = x"

text \<open>
  The text that \<^verbatim>\<open>toFixed(0)\<close> returns: a name, or a minus sign (for a value
  below zero) and the digits of a natural number. Values of \<open>10 ^ 21\<close> and more,
  which are printed with an exponent, are out of reach of a score and a length.
\<close>

datatype FixedText = TextNaN | TextInfinity | TextNegInfinity | TextDigits bool nat

fun toFixed0 :: "JsNumber \<Rightarrow> FixedText" where
  "toFixed0 NaN = TextNaN"
| "toFixed0 PosInfinity = TextInfinity"
| "toFixed0 NegInfinity = TextNegInfinity"
| "toFixed0 (Finite r) = TextDigits (r < 0) (nat \<lfloor>\<bar>r\<bar> + 1 / 2\<rfloor>)"

definition percentText :: "int \<Rightarrow> nat \<Rightarrow> FixedText" where
  "percentText a b = toFixed0 (jsTimes100 (jsDivide a b))"

definition percentage :: "QuizState \<Rightarrow> FixedText" where
  "percentage s = percentText (score s) (length (quizData s))"

subsection \<open>Notions used to state the properties\<close>

text \<open>
  The score as the specification words it: the number of positions \<open>i\<close> of the
  question list at which an answer is recorded and equals \<^verbatim>\<open>questions[i].correct\<close>.
\<close>

definition countCorrect :: "Question list \<Rightarrow> int list \<Rightarrow> nat" where
  "countCorrect qs as =
     length (filter (\<lambda>i. i < length as \<and> as ! i = correct (qs ! i)) [0..<length qs])"

text \<open>The state variables of a session: all but the bank and the category list.\<close>

definition sessionState ::
  "QuizState \<Rightarrow> string option \<times> Question list \<times> nat \<times> int list \<times> int \<times> bool \<times> int \<times> int option"
where
  "sessionState s =
     (selectedCategory s, quizData s, currentQuestionIndex s, answers s, score s,
      isQuizCompleted s, timeLeft s, selectedIndex s)"

text \<open>
  Two worlds that differ in the bank and the category list at most, in the state
  and in the states that the waiting timers have captured.
\<close>

definition sameSession :: "World \<Rightarrow> World \<Rightarrow> bool" where
  "sameSession w w' =
     (sessionState (ui w) = sessionState (ui w') \<and> scores w = scores w'
      \<and> list_all2 (\<lambda>a b. fst a = fst b \<and> sessionState (snd a) = sessionState (snd b))
           (timeouts w) (timeouts w'))"

fun isCategorySelect :: "Event \<Rightarrow> bool" where
  "isCategorySelect (CategorySelect c) = True"
| "isCategorySelect e = False"

text \<open>
  How one question gets its answer when nothing else interferes: the user waits
  for \<open>k\<close> ticks of the countdown and presses an option, whose half-second timer
  then runs; or the countdown runs its ten ticks, and the half-second timer that
  the last tick starts runs.
\<close>

datatype Answering = Pick nat int | TimeUp

fun answering :: "Answering \<Rightarrow> Event list" where
  "answering (Pick k i) = replicate k Tick @ [AnswerSelect i, Settle]"
| "answering TimeUp = replicate 10 Tick @ [Settle]"

fun recorded :: "Answering \<Rightarrow> int" where
  "recorded (Pick k i) = i"
| "recorded TimeUp = - 1"

fun inTime :: "Answering \<Rightarrow> bool" where
  "inTime (Pick k i) = (k < 10)"
| "inTime TimeUp = True"

definition recordOk :: "ScoreRecord \<Rightarrow> bool" where
  "recordOk r = (0 \<le> finalScore r \<and> finalScore r \<le> int (totalQuestions r))"

subsection \<open>Example data\<close>

definition exampleQuestion :: Question where
  "exampleQuestion = \<lparr>question = ''...'', options = [''a'', ''b'', ''c'', ''d''], correct = 1\<rparr>"

definition otherQuestion :: Question where
  "otherQuestion = \<lparr>question = ''?'', options = [''a'', ''b'', ''c'', ''d''], correct = 0\<rparr>"

definition exampleBank :: QuizBank where
  "exampleBank = [(''Algorithms'', [exampleQuestion])]"

definition twoQuestionBank :: QuizBank where
  "twoQuestionBank = [(''Algorithms'', [exampleQuestion, otherQuestion])]"

definition emptyCategoryBank :: QuizBank where
  "emptyCategoryBank = [(''Empty'', [])]"

definition generalBank :: QuizBank where
  "generalBank = [(''General'', [exampleQuestion])]"

definition twoCategoryBank :: QuizBank where
  "twoCategoryBank =
     [(''Algorithms'', [exampleQuestion, otherQuestion, otherQuestion]),
      (''Networks'', [exampleQuestion])]"

section \<open>General facts\<close>

lemma run_append: "run (es @ fs) w = run fs (run es w)"
  by (induction es arbitrary: w) simp_all

lemma select_ok:
  assumes "allQuizData (ui w) = Some d" and "map_of d c = Some qs"
  shows "step (CategorySelect c) w =
           w\<lparr>ui := (ui w)\<lparr>selectedCategory := Some c, quizData := qs, currentQuestionIndex := 0,
                           answers := [], score := 0, isQuizCompleted := False, timeLeft := 10,
                           selectedIndex := None\<rparr>\<rparr>"
  using assms by (simp add: handleCategorySelect_def restartQuiz_def)

subsection \<open>The loop of \<^verbatim>\<open>saveScoreToFirebase\<close> counts\<close>

lemma forEachScore_filter:
  "forEachScore qs idx fa acc =
     acc + int (length (filter (\<lambda>i. idx + i < length fa \<and> fa ! (idx + i) = correct (qs ! i))
                         [0..<length qs]))"
proof (induction qs arbitrary: idx acc)
  case Nil
  show ?case by simp
next
  case (Cons q qs)
  have "[0..<Suc (length qs)] = 0 # [Suc 0..<Suc (length qs)]"
    by (rule upt_conv_Cons) simp
  then have upt: "[0..<length (q # qs)] = 0 # map Suc [0..<length qs]"
    by (simp only: map_Suc_upt length_Cons)
  show ?case
    unfolding upt by (simp add: Cons.IH filter_map o_def)
qed

lemma forEachScore_countCorrect: "forEachScore qs 0 fa 0 = int (countCorrect qs fa)"
  by (simp add: forEachScore_filter countCorrect_def)


lemma countCorrect_le: "countCorrect qs as \<le> length qs"
  unfolding countCorrect_def using length_filter_le [of _ "[0..<length qs]"] by simp

subsection \<open>The doubles of the percentage\<close>

text \<open>\<open>binade\<close> is the exponent of the power of two at or below a positive number.\<close>

lemma binade_bounds:
  assumes "0 < x"
  shows "pow2 (binade x) \<le> x \<and> x < pow2 (binade x + 1)"
proof (cases "1 \<le> x")
  case True
  define n where "n = nat \<lfloor>x\<rfloor>"
  define k where "k = floorlog 2 n"
  from True have n: "0 < n" "rat_of_nat n \<le> x" "x < rat_of_nat n + 1"
    unfolding n_def by (simp_all add: of_nat_nat) linarith+
  from floorlog_bounds [of n 2] n(1) have b: "2 ^ (k - 1) \<le> n" "n < 2 ^ k"
    by (simp_all add: k_def)
  from n(1) have k: "0 < k" by (simp add: k_def floorlog_def)
  from True have e: "binade x = int k - 1" by (simp add: binade_def k_def n_def)
  from k have p1: "pow2 (binade x) = 2 ^ (k - 1)"
    by (simp add: e pow2_def nat_diff_distrib')
  have p2: "pow2 (binade x + 1) = 2 ^ k"
    by (simp add: e pow2_def)
  from b(1) have "rat_of_nat (2 ^ (k - 1)) \<le> rat_of_nat n"
    by (rule of_nat_mono)
  then have "(2::rat) ^ (k - 1) \<le> rat_of_nat n"
    by (simp only: of_nat_power of_nat_numeral)
  with n(2) have lo: "(2::rat) ^ (k - 1) \<le> x" by linarith
  from b(2) have "n + 1 \<le> 2 ^ k" by simp
  then have "rat_of_nat (n + 1) \<le> rat_of_nat (2 ^ k)"
    by (rule of_nat_mono)
  then have "rat_of_nat n + 1 \<le> 2 ^ k"
    by (simp only: of_nat_power of_nat_numeral of_nat_add of_nat_1)
  with n(3) have hi: "x < 2 ^ k" by linarith
  from lo hi show ?thesis unfolding p1 p2 by (rule conjI)
next
  case False
  define c where "c = \<lceil>1 / x\<rceil>"
  define m where "m = nat (c - 1)"
  define k where "k = floorlog 2 m"
  from False assms have "1 < 1 / x" by simp
  then have c: "2 \<le> c" "1 / x \<le> of_int c" "of_int c - 1 < 1 / x"
    unfolding c_def by (simp_all add: le_of_int_ceiling) linarith+
  from c(1) have m: "0 < m" "int m = c - 1" by (simp_all add: m_def)
  from floorlog_bounds [of m 2] m(1) have b: "2 ^ (k - 1) \<le> m" "m < 2 ^ k"
    by (simp_all add: k_def)
  from m(1) have k: "0 < k" by (simp add: k_def floorlog_def)
  from False have e: "binade x = - int k" by (simp add: binade_def k_def m_def c_def)
  from k have p1: "pow2 (binade x) = 1 / 2 ^ k"
    by (simp add: e pow2_def)
  from k have p2: "pow2 (binade x + 1) = 1 / 2 ^ (k - 1)"
    by (cases k) (simp_all add: e pow2_def)
  from b(1) have "rat_of_nat (2 ^ (k - 1)) \<le> rat_of_nat m"
    by (rule of_nat_mono)
  then have "(2::rat) ^ (k - 1) \<le> rat_of_nat m"
    by (simp only: of_nat_power of_nat_numeral)
  also have "rat_of_nat m = of_int c - 1"
  proof -
    have "rat_of_nat m = of_int (int m)" by simp
    also have "\<dots> = of_int (c - 1)" by (simp only: m(2))
    finally show ?thesis by simp
  qed
  finally have "(2::rat) ^ (k - 1) \<le> of_int c - 1" .
  with c(3) have lo: "(2::rat) ^ (k - 1) < 1 / x" by linarith
  from b(2) have "m + 1 \<le> 2 ^ k" by simp
  then have "rat_of_nat (m + 1) \<le> rat_of_nat (2 ^ k)"
    by (rule of_nat_mono)
  then have "rat_of_nat m + 1 \<le> 2 ^ k"
    by (simp only: of_nat_power of_nat_numeral of_nat_add of_nat_1)
  with \<open>rat_of_nat m = of_int c - 1\<close> c(2) have hi: "1 / x \<le> 2 ^ k" by linarith
  from hi assms have "1 / 2 ^ k \<le> x"
    by (simp add: field_simps)
  moreover from lo assms have "x < 1 / 2 ^ (k - 1)"
    by (simp add: field_simps)
  ultimately show ?thesis unfolding p1 p2 by (rule conjI)
qed

text \<open>
  Some percentages as the screen prints them: 23 of 40 is \<open>57\<close>, since the
  product is the double just below 57.5, and 1 of 8 is \<open>13\<close>, the larger
  neighbour of 12.5.
\<close>

lemma percentText_examples:
  "percentText 23 40 = TextDigits False 57"
  "percentText 1 8 = TextDigits False 13"
  "percentText 2 3 = TextDigits False 67"
  "percentText 5 5 = TextDigits False 100"
  "percentText 0 5 = TextDigits False 0"
  by code_simp+

section \<open>The remote bank\<close>

text \<open>
  C4. A payload that is an array is rejected: the listener leaves the whole world
  as it is, the bank and the category list in particular.
\<close>

theorem legacy_array_rejected:
  "step (RemoteValue (ArrayData xs)) w = w
   \<and> allQuizData (ui (step (RemoteValue (ArrayData xs)) w)) = allQuizData (ui w)
   \<and> categories (ui (step (RemoteValue (ArrayData xs)) w)) = categories (ui w)"
  by (simp add: onValue_def)

text \<open>With the bank \<open>{General: [...]}\<close> the categories are still \<open>[General]\<close>.\<close>

theorem legacy_array_rejected_witness:
  "categories (ui (step (RemoteValue (ArrayData [otherQuestion])) (initialWorld generalBank)))
     = [''General'']
   \<and> allQuizData (ui (step (RemoteValue (ArrayData [otherQuestion])) (initialWorld generalBank)))
     = Some generalBank"
  using legacy_array_rejected [of "[otherQuestion]" "initialWorld generalBank"]
  by (simp add: initialWorld_def initialState_def generalBank_def)

text \<open>
  C5. A payload that is an object becomes the bank as it is, whatever the bank was
  before, and the category list becomes the keys of the object in their order;
  selecting one of these keys afterwards starts a session on the question list
  that the payload has under that key.
\<close>

theorem object_payload_adopted:
  assumes "(c, qs) \<in> set d" and "distinct (map fst d)"
  shows "allQuizData (ui (step (RemoteValue (ObjectData d)) w)) = Some d
   \<and> categories (ui (step (RemoteValue (ObjectData d)) w)) = map fst d
   \<and> selectedCategory (ui (run [RemoteValue (ObjectData d), CategorySelect c] w)) = Some c
   \<and> quizData (ui (run [RemoteValue (ObjectData d), CategorySelect c] w)) = qs"
proof -
  from assms have "map_of d c = Some qs" by simp
  then show ?thesis
    by (simp add: onValue_def handleCategorySelect_def restartQuiz_def)
qed

theorem object_payload_adopted_witness:
  "categories (ui (step (RemoteValue (ObjectData twoQuestionBank)) (initialWorld generalBank)))
     = [''Algorithms'']
   \<and> quizData (ui (run [RemoteValue (ObjectData twoQuestionBank), CategorySelect ''Algorithms'']
        (initialWorld generalBank))) = [exampleQuestion, otherQuestion]"
  using object_payload_adopted [of "''Algorithms''" "[exampleQuestion, otherQuestion]"
      twoQuestionBank "initialWorld generalBank"]
  by (simp add: twoQuestionBank_def)

subsection \<open>A bank update leaves the session alone\<close>

lemma answerTimeout_sameSession:
  assumes "sameSession w w'" and "sessionState cap = sessionState cap'"
  shows "sameSession (answerTimeout i cap w) (answerTimeout i cap' w')"
  using assms
  by (simp add: sameSession_def sessionState_def answerTimeout_def saveScoreToFirebase_def Let_def)

lemma step_sameSession:
  assumes "sameSession w w'" and "\<not> isCategorySelect e"
  shows "sameSession (step e w) (step e w')"
proof (cases e)
  case (RemoteValue p)
  with assms show ?thesis
    by (cases p) (simp_all add: sameSession_def sessionState_def onValue_def)
next
  case (CategorySelect c)
  with assms show ?thesis by simp
next
  case BackToCategories
  with assms show ?thesis
    by (simp add: sameSession_def sessionState_def handleBackToCategories_def restartQuiz_def)
next
  case (AnswerSelect i)
  with assms show ?thesis
    by (simp add: sameSession_def sessionState_def handleAnswerSelect_def list_all2_appendI)
next
  case Restart
  with assms show ?thesis
    by (simp add: sameSession_def sessionState_def restartQuiz_def)
next
  case Tick
  with assms show ?thesis
    by (simp add: sameSession_def sessionState_def timerTick_def timerEffect_def
        handleAnswerSelect_def list_all2_appendI)
next
  case Settle
  show ?thesis
  proof (cases "timeouts w")
    case Nil
    with assms Settle show ?thesis by (simp add: sameSession_def)
  next
    case (Cons a rest)
    with assms obtain b rest' where t': "timeouts w' = b # rest'"
      and ab: "fst a = fst b" "sessionState (snd a) = sessionState (snd b)"
      and rr: "list_all2 (\<lambda>a b. fst a = fst b \<and> sessionState (snd a) = sessionState (snd b))
                 rest rest'"
      by (auto simp: sameSession_def list_all2_Cons1)
    from assms rr have "sameSession (w\<lparr>timeouts := rest\<rparr>) (w'\<lparr>timeouts := rest'\<rparr>)"
      by (simp add: sameSession_def)
    from answerTimeout_sameSession [OF this ab(2), of "fst a"] Settle Cons t' ab(1)
    show ?thesis by (cases a; cases b) simp
  qed
qed

lemma run_sameSession:
  "sameSession w w' \<Longrightarrow> \<forall>e\<in>set es. \<not> isCategorySelect e
     \<Longrightarrow> sameSession (run es w) (run es w')"
  by (induction es arbitrary: w w') (simp_all add: step_sameSession)

lemma remote_sameSession: "sameSession (step (RemoteValue p) w) w"
  by (cases p) (simp_all add: sameSession_def sessionState_def onValue_def list_all2_refl)

text \<open>
  C9. The questions of a session are the list that was in the bank when the
  category was selected. A value arriving from the remote store, whatever it is,
  changes none of the session variables (category, questions, question index,
  answers, score, completed flag, time left, selected option), no waiting timer
  and no pushed record; and whatever happens afterwards, short of selecting a
  category again, the session variables and the pushed records are the ones that
  the same events give without the update.
\<close>

theorem bank_update_keeps_session:
  assumes "\<forall>e\<in>set es. \<not> isCategorySelect e"
  shows "sessionState (ui (step (RemoteValue p) w)) = sessionState (ui w)
    \<and> timeouts (step (RemoteValue p) w) = timeouts w
    \<and> scores (step (RemoteValue p) w) = scores w
    \<and> sessionState (ui (run es (step (RemoteValue p) w))) = sessionState (ui (run es w))
    \<and> scores (run es (step (RemoteValue p) w)) = scores (run es w)"
proof -
  have "sameSession (run es (step (RemoteValue p) w)) (run es w)"
    using remote_sameSession assms by (rule run_sameSession)
  moreover have "sameSession (step (RemoteValue p) w) w" by (rule remote_sameSession)
  ultimately show ?thesis by (simp add: sameSession_def)
qed

theorem bank_update_keeps_session_witness:
  "quizData (ui (run [CategorySelect ''Algorithms'', RemoteValue (ObjectData generalBank),
                      AnswerSelect 1, Settle] (initialWorld exampleBank))) = [exampleQuestion]
   \<and> scores (run [CategorySelect ''Algorithms'', RemoteValue (ObjectData generalBank),
                      AnswerSelect 1, Settle] (initialWorld exampleBank))
      = [\<lparr>category = Some ''Algorithms'', finalScore = 1, totalQuestions = 1\<rparr>]
   \<and> allQuizData (ui (run [CategorySelect ''Algorithms'', RemoteValue (ObjectData generalBank),
                      AnswerSelect 1, Settle] (initialWorld exampleBank))) = Some generalBank"
proof -
  let ?w = "step (CategorySelect ''Algorithms'') (initialWorld exampleBank)"
  have "\<forall>e\<in>set [AnswerSelect 1, Settle]. \<not> isCategorySelect e" by simp
  from bank_update_keeps_session [OF this, of "ObjectData generalBank" ?w]
  have "sessionState (ui (run [AnswerSelect 1, Settle] (step (RemoteValue (ObjectData generalBank)) ?w)))
          = sessionState (ui (run [AnswerSelect 1, Settle] ?w))"
    and "scores (run [AnswerSelect 1, Settle] (step (RemoteValue (ObjectData generalBank)) ?w))
          = scores (run [AnswerSelect 1, Settle] ?w)"
    by simp_all
  then show ?thesis
    by (simp add: sessionState_def initialWorld_def initialState_def exampleBank_def
        exampleQuestion_def handleCategorySelect_def restartQuiz_def handleAnswerSelect_def
        answerTimeout_def saveScoreToFirebase_def onValue_def Let_def)
qed

section \<open>Restarting\<close>

text \<open>
  C8. \<^verbatim>\<open>restartQuiz\<close>, pressed on the completed screen or called from anywhere
  else, sets the question index to 0, the score to 0, the answers to the empty
  list, the completed flag to false, the time left to 10 and the selected option
  to none; the selected category, the questions of the session, the bank and the
  category list stay as they were, and so do the waiting timers and the pushed
  records.
\<close>

theorem restart_resets_session:
  "currentQuestionIndex (ui (step Restart w)) = 0
   \<and> score (ui (step Restart w)) = 0
   \<and> answers (ui (step Restart w)) = []
   \<and> isQuizCompleted (ui (step Restart w)) = False
   \<and> timeLeft (ui (step Restart w)) = 10
   \<and> selectedIndex (ui (step Restart w)) = None
   \<and> selectedCategory (ui (step Restart w)) = selectedCategory (ui w)
   \<and> quizData (ui (step Restart w)) = quizData (ui w)
   \<and> allQuizData (ui (step Restart w)) = allQuizData (ui w)
   \<and> categories (ui (step Restart w)) = categories (ui w)
   \<and> timeouts (step Restart w) = timeouts w
   \<and> scores (step Restart w) = scores w"
  by (simp add: restartQuiz_def)

text \<open>A restart from the completed screen of the one-question example.\<close>

theorem restart_resets_session_witness:
  "screen (ui (run [CategorySelect ''Algorithms'', AnswerSelect 1, Settle]
       (initialWorld exampleBank))) = CompletedScreen
   \<and> sessionState (ui (step Restart (run [CategorySelect ''Algorithms'', AnswerSelect 1, Settle]
       (initialWorld exampleBank))))
     = (Some ''Algorithms'', [exampleQuestion], 0, [], 0, False, 10, None)"
  using restart_resets_session [of "run [CategorySelect ''Algorithms'', AnswerSelect 1, Settle]
       (initialWorld exampleBank)"]
  by (simp add: sessionState_def screen_def initialWorld_def initialState_def exampleBank_def
      exampleQuestion_def handleCategorySelect_def restartQuiz_def handleAnswerSelect_def
      answerTimeout_def saveScoreToFirebase_def Let_def)

section \<open>The score at completion\<close>



section \<open>A session from the selection to the completed screen\<close>

lemma ticks_count_down:
  assumes "truthy (selectedCategory (ui w))" and "\<not> isQuizCompleted (ui w)"
    and "timeLeft (ui w) = int n + t" and "1 \<le> t"
  shows "run (replicate n Tick) w = w\<lparr>ui := (ui w)\<lparr>timeLeft := t\<rparr>\<rparr>"
  using assms
proof (induction n arbitrary: w)
  case 0
  then show ?case by simp
next
  case (Suc n)
  let ?w1 = "w\<lparr>ui := (ui w)\<lparr>timeLeft := int n + t\<rparr>\<rparr>"
  from Suc.prems have "step Tick w = ?w1"
    by (simp add: timerTick_def timerEffect_def)
  moreover from Suc.prems
  have "run (replicate n Tick) ?w1 = ?w1\<lparr>ui := (ui ?w1)\<lparr>timeLeft := t\<rparr>\<rparr>"
    by (intro Suc.IH) simp_all
  ultimately show ?case by simp
qed

text \<open>The tenth tick brings the time left to 0 and calls \<^verbatim>\<open>handleAnswerSelect(-1)\<close>.\<close>

lemma countdown_expires:
  assumes "truthy (selectedCategory (ui w))" and "\<not> isQuizCompleted (ui w)"
    and "timeLeft (ui w) = 10"
  shows "run (replicate 10 Tick) w
           = handleAnswerSelect (- 1) (w\<lparr>ui := (ui w)\<lparr>timeLeft := 0\<rparr>\<rparr>)"
proof -
  have "replicate 10 Tick = replicate 9 Tick @ [Tick]"
    by (simp add: numeral_eq_Suc replicate_append_same)
  moreover from assms have "run (replicate 9 Tick) w = w\<lparr>ui := (ui w)\<lparr>timeLeft := 1\<rparr>\<rparr>"
    by (intro ticks_count_down) simp_all
  moreover from assms
  have "step Tick (w\<lparr>ui := (ui w)\<lparr>timeLeft := 1\<rparr>\<rparr>) =
        handleAnswerSelect (- 1) (w\<lparr>ui := (ui w)\<lparr>timeLeft := 0\<rparr>\<rparr>)"
    by (simp add: timerTick_def timerEffect_def)
  ultimately show ?thesis by (simp add: run_append)
qed

text \<open>
  One question answered: the half-second timer runs with the index that was
  recorded, on the state in which only the time left has moved.
\<close>

lemma answering_one:
  assumes "truthy (selectedCategory (ui w))" and "\<not> isQuizCompleted (ui w)"
    and "timeLeft (ui w) = 10" and "timeouts w = []" and "inTime a"
  shows "\<exists>t. run (answering a) w =
           answerTimeout (recorded a) ((ui w)\<lparr>timeLeft := t\<rparr>)
             (w\<lparr>ui := (ui w)\<lparr>timeLeft := t, selectedIndex := Some (recorded a)\<rparr>,
               timeouts := []\<rparr>)"
proof (cases a)
  case (Pick k i)
  with assms have "run (replicate k Tick) w = w\<lparr>ui := (ui w)\<lparr>timeLeft := 10 - int k\<rparr>\<rparr>"
    by (intro ticks_count_down) simp_all
  with Pick assms(4) have "run (answering a) w =
           answerTimeout (recorded a) ((ui w)\<lparr>timeLeft := 10 - int k\<rparr>)
             (w\<lparr>ui := (ui w)\<lparr>timeLeft := 10 - int k, selectedIndex := Some (recorded a)\<rparr>,
               timeouts := []\<rparr>)"
    by (simp add: run_append handleAnswerSelect_def)
  then show ?thesis ..
next
  case TimeUp
  with assms have "run (answering a) w =
           answerTimeout (recorded a) ((ui w)\<lparr>timeLeft := 0\<rparr>)
             (w\<lparr>ui := (ui w)\<lparr>timeLeft := 0, selectedIndex := Some (recorded a)\<rparr>,
               timeouts := []\<rparr>)"
    by (simp add: run_append countdown_expires handleAnswerSelect_def)
  then show ?thesis ..
qed

lemma session_run:
  assumes "selectedCategory (ui w) = Some c" and "c \<noteq> []"
    and "\<not> isQuizCompleted (ui w)" and "timeLeft (ui w) = 10" and "timeouts w = []"
    and "quizData (ui w) = qs"
    and "currentQuestionIndex (ui w) + length as = length qs" and "as \<noteq> []"
    and "\<forall>a\<in>set as. inTime a"
  shows "isQuizCompleted (ui (run (concat (map answering as)) w))
    \<and> answers (ui (run (concat (map answering as)) w)) = answers (ui w) @ map recorded as
    \<and> quizData (ui (run (concat (map answering as)) w)) = qs
    \<and> selectedCategory (ui (run (concat (map answering as)) w)) = Some c
    \<and> score (ui (run (concat (map answering as)) w))
        = int (countCorrect qs (answers (ui w) @ map recorded as))
    \<and> scores (run (concat (map answering as)) w) = scores w @
        [\<lparr>category = Some c,
          finalScore = int (countCorrect qs (answers (ui w) @ map recorded as)),
          totalQuestions = length qs\<rparr>]
    \<and> timeouts (run (concat (map answering as)) w) = []"
  using assms
proof (induction as arbitrary: w)
  case Nil
  then show ?case by simp
next
  case (Cons a as)
  from Cons.prems obtain t where one: "run (answering a) w =
      answerTimeout (recorded a) ((ui w)\<lparr>timeLeft := t\<rparr>)
        (w\<lparr>ui := (ui w)\<lparr>timeLeft := t, selectedIndex := Some (recorded a)\<rparr>,
          timeouts := []\<rparr>)"
    using answering_one [of w a] by auto
  show ?case
  proof (cases as)
    case Nil
    with Cons.prems have "\<not> int (currentQuestionIndex (ui w)) < int (length qs) - 1"
      by simp
    with Cons.prems Nil one show ?thesis
      by (simp add: answerTimeout_def saveScoreToFirebase_def Let_def forEachScore_countCorrect)
  next
    case (Cons b bs)
    let ?w1 = "run (answering a) w"
    from Cons Cons.prems have lt: "int (currentQuestionIndex (ui w)) < int (length qs) - 1"
      by simp
    with Cons.prems one have w1:
      "selectedCategory (ui ?w1) = Some c" "\<not> isQuizCompleted (ui ?w1)"
      "timeLeft (ui ?w1) = 10" "timeouts ?w1 = []" "quizData (ui ?w1) = qs"
      "currentQuestionIndex (ui ?w1) = currentQuestionIndex (ui w) + 1"
      "answers (ui ?w1) = answers (ui w) @ [recorded a]" "scores ?w1 = scores w"
      by (simp_all add: answerTimeout_def Let_def)
    from Cons.prems Cons w1 have
      "currentQuestionIndex (ui ?w1) + length as = length qs" "as \<noteq> []"
      "\<forall>a\<in>set as. inTime a"
      by simp_all
    from Cons.IH [OF w1(1) \<open>c \<noteq> []\<close> w1(2,3,4,5) this] w1(7,8)
    show ?thesis by (simp add: run_append)
  qed
qed

text \<open>
  The claim C6 as it is worded fails, because a half-second timer that is waiting
  is cancelled neither by \<^verbatim>\<open>handleBackToCategories\<close> nor by
  \<^verbatim>\<open>handleCategorySelect\<close>. In \<open>Algorithms\<close> (three questions) option 1 is
  pressed and its timer runs, option 0 is pressed on the second question, and
  before its timer runs the user goes back and selects \<open>Networks\<close> (one
  question). The waiting timer then runs and writes the answers \<open>[1, 0]\<close> and
  the question index 2 of the abandoned session into the new one. The one
  question of \<open>Networks\<close> is answered by the countdown: the session is
  completed with three recorded answers for one question.
\<close>

theorem stale_answer_breaks_answer_count:
  "length (timeouts (run [CategorySelect ''Algorithms'', AnswerSelect 1, Settle, AnswerSelect 0,
                          BackToCategories] (initialWorld twoCategoryBank))) = 1
   \<and> isQuizCompleted (ui (run ([CategorySelect ''Algorithms'', AnswerSelect 1, Settle,
                       AnswerSelect 0, BackToCategories, CategorySelect ''Networks'', Settle]
                       @ concat (map answering [TimeUp])) (initialWorld twoCategoryBank)))
   \<and> quizData (ui (run ([CategorySelect ''Algorithms'', AnswerSelect 1, Settle,
                       AnswerSelect 0, BackToCategories, CategorySelect ''Networks'', Settle]
                       @ concat (map answering [TimeUp])) (initialWorld twoCategoryBank)))
       = [exampleQuestion]
   \<and> answers (ui (run ([CategorySelect ''Algorithms'', AnswerSelect 1, Settle,
                       AnswerSelect 0, BackToCategories, CategorySelect ''Networks'', Settle]
                       @ concat (map answering [TimeUp])) (initialWorld twoCategoryBank)))
       = [1, 0, - 1]
   \<and> length (answers (ui (run ([CategorySelect ''Algorithms'', AnswerSelect 1, Settle,
                       AnswerSelect 0, BackToCategories, CategorySelect ''Networks'', Settle]
                       @ concat (map answering [TimeUp])) (initialWorld twoCategoryBank))))
       \<noteq> length (quizData (ui (run ([CategorySelect ''Algorithms'', AnswerSelect 1, Settle,
                       AnswerSelect 0, BackToCategories, CategorySelect ''Networks'', Settle]
                       @ concat (map answering [TimeUp])) (initialWorld twoCategoryBank))))"
  by code_simp

text \<open>
  C6, amended. Let \<open>c\<close> be a category of the bank with at least one question (and
  a name that is not the empty string, which the component treats as no
  category), and let no half-second timer of an earlier press be waiting when
  \<open>c\<close> is selected. After \<open>c\<close> is selected and every question is answered in its
  turn, by pressing any option before the countdown ends or by letting the
  countdown end, the completed screen is shown and there are as many recorded
  answers as questions.
\<close>

theorem answering_every_question_completes:
  assumes "allQuizData (ui w) = Some d" and "map_of d c = Some qs" and "c \<noteq> []"
    and "qs \<noteq> []" and "timeouts w = []"
    and "length as = length qs" and "\<forall>a\<in>set as. inTime a"
  shows "isQuizCompleted (ui (run (CategorySelect c # concat (map answering as)) w))
    \<and> screen (ui (run (CategorySelect c # concat (map answering as)) w)) = CompletedScreen
    \<and> length (answers (ui (run (CategorySelect c # concat (map answering as)) w)))
        = length (quizData (ui (run (CategorySelect c # concat (map answering as)) w)))
    \<and> quizData (ui (run (CategorySelect c # concat (map answering as)) w)) = qs
    \<and> answers (ui (run (CategorySelect c # concat (map answering as)) w)) = map recorded as"
proof -
  let ?w1 = "w\<lparr>ui := (ui w)\<lparr>selectedCategory := Some c, quizData := qs,
                 currentQuestionIndex := 0, answers := [], score := 0,
                 isQuizCompleted := False, timeLeft := 10, selectedIndex := None\<rparr>\<rparr>"
  let ?es = "concat (map answering as)"
  have sel: "run (CategorySelect c # ?es) w = run ?es ?w1"
    by (simp only: run.simps select_ok [OF assms(1,2)])
  from assms have "as \<noteq> []" by auto
  have "isQuizCompleted (ui (run ?es ?w1))
    \<and> answers (ui (run ?es ?w1)) = answers (ui ?w1) @ map recorded as
    \<and> quizData (ui (run ?es ?w1)) = qs
    \<and> selectedCategory (ui (run ?es ?w1)) = Some c
    \<and> score (ui (run ?es ?w1)) = int (countCorrect qs (answers (ui ?w1) @ map recorded as))
    \<and> scores (run ?es ?w1) = scores ?w1 @
        [\<lparr>category = Some c,
          finalScore = int (countCorrect qs (answers (ui ?w1) @ map recorded as)),
          totalQuestions = length qs\<rparr>]
    \<and> timeouts (run ?es ?w1) = []"
    using assms(3,5,6,7) \<open>as \<noteq> []\<close> by (intro session_run) simp_all
  with \<open>c \<noteq> []\<close> assms(6) show ?thesis
    unfolding sel by (simp add: screen_def)
qed

text \<open>
  Two questions: option 0 after three ticks on the first, the countdown on the
  second.
\<close>

theorem answering_every_question_completes_witness:
  "isQuizCompleted (ui (run (CategorySelect ''Algorithms'' # concat (map answering [Pick 3 0, TimeUp]))
       (initialWorld twoQuestionBank)))
   \<and> length (answers (ui (run (CategorySelect ''Algorithms'' # concat (map answering [Pick 3 0, TimeUp]))
       (initialWorld twoQuestionBank)))) = 2
   \<and> length (quizData (ui (run (CategorySelect ''Algorithms'' # concat (map answering [Pick 3 0, TimeUp]))
       (initialWorld twoQuestionBank)))) = 2"
  using answering_every_question_completes [of "initialWorld twoQuestionBank" twoQuestionBank
      "''Algorithms''" "[exampleQuestion, otherQuestion]" "[Pick 3 0, TimeUp]"]
  by (simp add: initialWorld_def initialState_def twoQuestionBank_def)

section \<open>The countdown\<close>

text \<open>
  The countdown running out, from any number of seconds, at any question and
  whatever timers are waiting, is the call \<^verbatim>\<open>handleAnswerSelect(-1)\<close> on the
  state with no time left.
\<close>

lemma countdown_reaches_zero:
  assumes "truthy (selectedCategory (ui v))" and "\<not> isQuizCompleted (ui v)"
    and "timeLeft (ui v) = int n" and "0 < n"
  shows "run (replicate n Tick) v = step (AnswerSelect (- 1)) (v\<lparr>ui := (ui v)\<lparr>timeLeft := 0\<rparr>\<rparr>)"
proof -
  from assms(4) obtain k where n: "n = Suc k" by (cases n) auto
  have "replicate n Tick = replicate k Tick @ [Tick]"
    by (simp add: n replicate_append_same)
  moreover from assms n have "run (replicate k Tick) v = v\<lparr>ui := (ui v)\<lparr>timeLeft := 1\<rparr>\<rparr>"
    by (intro ticks_count_down) simp_all
  moreover from assms
  have "step Tick (v\<lparr>ui := (ui v)\<lparr>timeLeft := 1\<rparr>\<rparr>) =
        handleAnswerSelect (- 1) (v\<lparr>ui := (ui v)\<lparr>timeLeft := 0\<rparr>\<rparr>)"
    by (simp add: timerTick_def timerEffect_def)
  ultimately show ?thesis by (simp add: run_append)
qed

lemma tick_cases:
  "step Tick u =
     (if truthy (selectedCategory (ui u)) \<and> 0 < timeLeft (ui u) \<and> \<not> isQuizCompleted (ui u)
      then (if timeLeft (ui u) = 1
            then step (AnswerSelect (- 1)) (u\<lparr>ui := (ui u)\<lparr>timeLeft := 0\<rparr>\<rparr>)
            else u\<lparr>ui := (ui u)\<lparr>timeLeft := timeLeft (ui u) - 1\<rparr>\<rparr>)
      else u)"
  by (simp add: timerTick_def timerEffect_def)

text \<open>
  The claim C7 as it is worded fails in its example, for the reason C6 fails: a
  press whose half-second timer is still waiting when the user goes back is not
  cancelled. In \<open>Algorithms\<close> option 1, the correct one, is pressed; the user goes
  back and selects \<open>Networks\<close>, one question whose correct option is 1 as well.
  The waiting timer writes the answer 1 into the new session and moves its
  question index to 1. No option of \<open>Networks\<close> is pressed; the countdown runs
  out, the session is completed, and the recount finds the answer 1 at the first
  position: the final score and the pushed score are 1.
\<close>

theorem stale_answer_scores_after_timeout:
  "quizData (ui (run ([CategorySelect ''Algorithms'', AnswerSelect 1, BackToCategories,
                       CategorySelect ''Networks'', Settle] @ replicate 10 Tick @ [Settle])
                  (initialWorld twoCategoryBank))) = [exampleQuestion]
   \<and> isQuizCompleted (ui (run ([CategorySelect ''Algorithms'', AnswerSelect 1, BackToCategories,
                       CategorySelect ''Networks'', Settle] @ replicate 10 Tick @ [Settle])
                  (initialWorld twoCategoryBank)))
   \<and> answers (ui (run ([CategorySelect ''Algorithms'', AnswerSelect 1, BackToCategories,
                       CategorySelect ''Networks'', Settle] @ replicate 10 Tick @ [Settle])
                  (initialWorld twoCategoryBank))) = [1, - 1]
   \<and> score (ui (run ([CategorySelect ''Algorithms'', AnswerSelect 1, BackToCategories,
                       CategorySelect ''Networks'', Settle] @ replicate 10 Tick @ [Settle])
                  (initialWorld twoCategoryBank))) = 1
   \<and> scores (run ([CategorySelect ''Algorithms'', AnswerSelect 1, BackToCategories,
                       CategorySelect ''Networks'', Settle] @ replicate 10 Tick @ [Settle])
                  (initialWorld twoCategoryBank))
       = [\<lparr>category = Some ''Networks'', finalScore = 1, totalQuestions = 1\<rparr>]"
  by code_simp

text \<open>
  C7, amended. At every question of a running session, whatever else is going on,
  the countdown reaching 0 is exactly the call \<^verbatim>\<open>handleAnswerSelect(-1)\<close>, the
  function that a press calls, on the state with no time left; the ticks before
  the last one change the time left and nothing else, and a tick does nothing
  when no category is selected, the session is completed or no time is left. In a
  session on one question whose \<^verbatim>\<open>correct\<close> is an index into its options (so
  not negative), with no option pressed and no half-second timer of an earlier
  press waiting when the category is selected, the ten ticks and the half-second
  timer lead to the completed state with the answer \<open>-1\<close> recorded, score 0 and
  a pushed record of score 0 out of 1; calling \<^verbatim>\<open>handleAnswerSelect(-1)\<close> at
  once instead gives the same answers, score, completed flag and records.
\<close>

theorem timeout_is_answer_minus_one:
  assumes "truthy (selectedCategory (ui v))" and "\<not> isQuizCompleted (ui v)"
    and "timeLeft (ui v) = int n" and "m < n"
    and "allQuizData (ui w) = Some d" and "map_of d c = Some [q]" and "c \<noteq> []"
    and "0 \<le> correct q" and "timeouts w = []"
  shows "run (replicate n Tick) v = step (AnswerSelect (- 1)) (v\<lparr>ui := (ui v)\<lparr>timeLeft := 0\<rparr>\<rparr>)
    \<and> run (replicate m Tick) v = v\<lparr>ui := (ui v)\<lparr>timeLeft := int n - int m\<rparr>\<rparr>
    \<and> step Tick u =
         (if truthy (selectedCategory (ui u)) \<and> 0 < timeLeft (ui u) \<and> \<not> isQuizCompleted (ui u)
          then (if timeLeft (ui u) = 1
                then step (AnswerSelect (- 1)) (u\<lparr>ui := (ui u)\<lparr>timeLeft := 0\<rparr>\<rparr>)
                else u\<lparr>ui := (ui u)\<lparr>timeLeft := timeLeft (ui u) - 1\<rparr>\<rparr>)
          else u)
    \<and> run (replicate 10 Tick) (step (CategorySelect c) w)
           = handleAnswerSelect (- 1)
               ((step (CategorySelect c) w)\<lparr>ui := (ui (step (CategorySelect c) w))\<lparr>timeLeft := 0\<rparr>\<rparr>)
    \<and> isQuizCompleted (ui (run (CategorySelect c # replicate 10 Tick @ [Settle]) w))
    \<and> answers (ui (run (CategorySelect c # replicate 10 Tick @ [Settle]) w)) = [- 1]
    \<and> score (ui (run (CategorySelect c # replicate 10 Tick @ [Settle]) w)) = 0
    \<and> scores (run (CategorySelect c # replicate 10 Tick @ [Settle]) w)
         = scores w @ [\<lparr>category = Some c, finalScore = 0, totalQuestions = 1\<rparr>]
    \<and> answers (ui (run [CategorySelect c, AnswerSelect (- 1), Settle] w)) = [- 1]
    \<and> score (ui (run [CategorySelect c, AnswerSelect (- 1), Settle] w)) = 0
    \<and> isQuizCompleted (ui (run [CategorySelect c, AnswerSelect (- 1), Settle] w))
    \<and> scores (run [CategorySelect c, AnswerSelect (- 1), Settle] w)
         = scores (run (CategorySelect c # replicate 10 Tick @ [Settle]) w)"
proof -
  from assms(4) have "0 < n" by simp
  with assms(1-3) have g1: "run (replicate n Tick) v
      = step (AnswerSelect (- 1)) (v\<lparr>ui := (ui v)\<lparr>timeLeft := 0\<rparr>\<rparr>)"
    by (rule countdown_reaches_zero)
  from assms(1-4) have g2: "run (replicate m Tick) v = v\<lparr>ui := (ui v)\<lparr>timeLeft := int n - int m\<rparr>\<rparr>"
    by (intro ticks_count_down) simp_all
  note g3 = tick_cases [of u]
  let ?w1 = "w\<lparr>ui := (ui w)\<lparr>selectedCategory := Some c, quizData := [q],
                 currentQuestionIndex := 0, answers := [], score := 0,
                 isQuizCompleted := False, timeLeft := 10, selectedIndex := None\<rparr>\<rparr>"
  have sel: "step (CategorySelect c) w = ?w1"
    by (rule select_ok [OF assms(5,6)])
  from assms(7) have exp: "run (replicate 10 Tick) ?w1
      = handleAnswerSelect (- 1) (?w1\<lparr>ui := (ui ?w1)\<lparr>timeLeft := 0\<rparr>\<rparr>)"
    by (intro countdown_expires) simp_all
  from assms(8) have none: "countCorrect [q] [- 1] = 0"
    by (auto simp: countCorrect_def)
  have a: "run (CategorySelect c # replicate 10 Tick @ [Settle]) w
      = step Settle (run (replicate 10 Tick) ?w1)"
    by (simp only: run.simps run_append sel)
  have b: "run [CategorySelect c, AnswerSelect (- 1), Settle] w
      = step Settle (step (AnswerSelect (- 1)) ?w1)"
    by (simp only: run.simps sel)
  have rest: "run (replicate 10 Tick) (step (CategorySelect c) w)
           = handleAnswerSelect (- 1)
               ((step (CategorySelect c) w)\<lparr>ui := (ui (step (CategorySelect c) w))\<lparr>timeLeft := 0\<rparr>\<rparr>)
    \<and> isQuizCompleted (ui (run (CategorySelect c # replicate 10 Tick @ [Settle]) w))
    \<and> answers (ui (run (CategorySelect c # replicate 10 Tick @ [Settle]) w)) = [- 1]
    \<and> score (ui (run (CategorySelect c # replicate 10 Tick @ [Settle]) w)) = 0
    \<and> scores (run (CategorySelect c # replicate 10 Tick @ [Settle]) w)
         = scores w @ [\<lparr>category = Some c, finalScore = 0, totalQuestions = 1\<rparr>]
    \<and> answers (ui (run [CategorySelect c, AnswerSelect (- 1), Settle] w)) = [- 1]
    \<and> score (ui (run [CategorySelect c, AnswerSelect (- 1), Settle] w)) = 0
    \<and> isQuizCompleted (ui (run [CategorySelect c, AnswerSelect (- 1), Settle] w))
    \<and> scores (run [CategorySelect c, AnswerSelect (- 1), Settle] w)
         = scores (run (CategorySelect c # replicate 10 Tick @ [Settle]) w)"
    unfolding a b sel exp using assms(9) none
    by (simp add: handleAnswerSelect_def answerTimeout_def saveScoreToFirebase_def Let_def
        forEachScore_countCorrect)
  show ?thesis by (rule conjI [OF g1 conjI [OF g2 conjI [OF g3 rest]]])
qed

theorem timeout_is_answer_minus_one_witness:
  "run (replicate 10 Tick) (step (CategorySelect ''Algorithms'') (initialWorld twoQuestionBank))
     = step (AnswerSelect (- 1))
         ((step (CategorySelect ''Algorithms'') (initialWorld twoQuestionBank))
            \<lparr>ui := (ui (step (CategorySelect ''Algorithms'') (initialWorld twoQuestionBank)))
                     \<lparr>timeLeft := 0\<rparr>\<rparr>)
   \<and> timeLeft (ui (run (replicate 3 Tick)
         (step (CategorySelect ''Algorithms'') (initialWorld twoQuestionBank)))) = 7
   \<and> timeouts (run (replicate 3 Tick)
         (step (CategorySelect ''Algorithms'') (initialWorld twoQuestionBank))) = []
   \<and> isQuizCompleted (ui (run (CategorySelect ''Algorithms'' # replicate 10 Tick @ [Settle])
       (initialWorld exampleBank)))
   \<and> score (ui (run (CategorySelect ''Algorithms'' # replicate 10 Tick @ [Settle])
       (initialWorld exampleBank))) = 0
   \<and> scores (run (CategorySelect ''Algorithms'' # replicate 10 Tick @ [Settle])
       (initialWorld exampleBank))
       = [\<lparr>category = Some ''Algorithms'', finalScore = 0, totalQuestions = 1\<rparr>]"
proof -
  let ?v = "step (CategorySelect ''Algorithms'') (initialWorld twoQuestionBank)"
  let ?w = "initialWorld exampleBank"
  have v: "truthy (selectedCategory (ui ?v))" "\<not> isQuizCompleted (ui ?v)"
    "timeLeft (ui ?v) = int 10" "timeouts ?v = []"
    by (simp_all add: initialWorld_def initialState_def twoQuestionBank_def
        handleCategorySelect_def restartQuiz_def)
  have w: "allQuizData (ui ?w) = Some exampleBank"
    "map_of exampleBank ''Algorithms'' = Some [exampleQuestion]" "''Algorithms'' \<noteq> []"
    "0 \<le> correct exampleQuestion" "timeouts ?w = []"
    by (simp_all add: initialWorld_def initialState_def exampleBank_def exampleQuestion_def)
  have "(3::nat) < 10" by simp
  note T = timeout_is_answer_minus_one [OF v(1,2,3) this w, of ?w]
  from T have a: "run (replicate 10 Tick) ?v
      = step (AnswerSelect (- 1)) (?v\<lparr>ui := (ui ?v)\<lparr>timeLeft := 0\<rparr>\<rparr>)"
    by (rule conjunct1)
  from T have b: "run (replicate 3 Tick) ?v = ?v\<lparr>ui := (ui ?v)\<lparr>timeLeft := int 10 - int 3\<rparr>\<rparr>"
    by blast
  from T w(5) have c: "isQuizCompleted (ui (run (CategorySelect ''Algorithms'' # replicate 10 Tick @ [Settle]) ?w))"
    "score (ui (run (CategorySelect ''Algorithms'' # replicate 10 Tick @ [Settle]) ?w)) = 0"
    "scores (run (CategorySelect ''Algorithms'' # replicate 10 Tick @ [Settle]) ?w)
       = scores ?w @ [\<lparr>category = Some ''Algorithms'', finalScore = 0, totalQuestions = 1\<rparr>]"
    by blast+
  have s: "scores ?w = []" by (simp add: initialWorld_def)
  from a b c v(4) show ?thesis
    by (simp only: s append_Nil) simp
qed

section \<open>Several calls for one question\<close>

text \<open>
  \<^verbatim>\<open>handleAnswerSelect\<close> has no test of whether an answer is already on its way.
  Calls made before the first half-second timer runs all capture the same
  answers.
\<close>

lemma answerSelects_wait:
  "\<exists>ts. run (map AnswerSelect is) w =
          w\<lparr>ui := (ui w)\<lparr>selectedIndex :=
                 (if is = [] then selectedIndex (ui w) else Some (last is))\<rparr>,
            timeouts := timeouts w @ ts\<rparr>
        \<and> map fst ts = is \<and> (\<forall>t\<in>set ts. answers (snd t) = answers (ui w))"
proof (induction "is" arbitrary: w)
  case Nil
  show ?case by simp
next
  case (Cons i "is")
  let ?w1 = "handleAnswerSelect i w"
  from Cons.IH [of ?w1] obtain ts where ts:
    "run (map AnswerSelect is) ?w1 =
       ?w1\<lparr>ui := (ui ?w1)\<lparr>selectedIndex :=
              (if is = [] then selectedIndex (ui ?w1) else Some (last is))\<rparr>,
           timeouts := timeouts ?w1 @ ts\<rparr>"
    "map fst ts = is" "\<forall>t\<in>set ts. answers (snd t) = answers (ui ?w1)"
    by blast
  have "run (map AnswerSelect (i # is)) w =
          w\<lparr>ui := (ui w)\<lparr>selectedIndex :=
                 (if i # is = [] then selectedIndex (ui w) else Some (last (i # is)))\<rparr>,
            timeouts := timeouts w @ ((i, ui w) # ts)\<rparr>
        \<and> map fst ((i, ui w) # ts) = i # is
        \<and> (\<forall>t\<in>set ((i, ui w) # ts). answers (snd t) = answers (ui w))"
    using ts by (simp add: handleAnswerSelect_def)
  then show ?case by (rule exI [where x = "(i, ui w) # ts"])
qed

lemma settles_keep_last:
  assumes "timeouts w = ts" and "ts \<noteq> []" and "\<forall>t\<in>set ts. answers (snd t) = a"
  shows "answers (ui (run (replicate (length ts) Settle) w)) = a @ [fst (last ts)]
    \<and> timeouts (run (replicate (length ts) Settle) w) = []"
  using assms
proof (induction ts arbitrary: w)
  case Nil
  then show ?case by simp
next
  case (Cons t ts)
  obtain i cap where t: "t = (i, cap)" by (cases t)
  let ?w1 = "answerTimeout i cap (w\<lparr>timeouts := ts\<rparr>)"
  have w1: "timeouts ?w1 = ts" "answers (ui ?w1) = answers cap @ [i]"
    by (simp_all add: answerTimeout_def saveScoreToFirebase_def Let_def)
  from Cons.prems t have st: "step Settle w = ?w1" by simp
  show ?case
  proof (cases ts)
    case Nil
    with Cons.prems t w1 st show ?thesis by simp
  next
    case (Cons u us)
    with Cons.prems have "ts \<noteq> []" "\<forall>t\<in>set ts. answers (snd t) = a" by simp_all
    from Cons.IH [OF w1(1) this] st Cons show ?thesis by simp
  qed
qed

text \<open>
  The claim C2 as it is worded fails. Two questions, the first with the correct
  option 1: option 1 is pressed, and before its half-second timer runs (the first
  question is still on the screen) option 0 is pressed. The second call is not
  ignored: it changes the world, and after both timers the answer recorded for
  the first question is 0, the one of the second call, while the score that is
  kept along is still the 1 of the first call.
\<close>

theorem second_answer_not_ignored:
  "screen (ui (run [CategorySelect ''Algorithms'', AnswerSelect 1] (initialWorld twoQuestionBank)))
     = QuestionScreen
   \<and> currentQuestionIndex (ui (run [CategorySelect ''Algorithms'', AnswerSelect 1]
       (initialWorld twoQuestionBank))) = 0
   \<and> step (AnswerSelect 0) (run [CategorySelect ''Algorithms'', AnswerSelect 1]
       (initialWorld twoQuestionBank))
      \<noteq> run [CategorySelect ''Algorithms'', AnswerSelect 1] (initialWorld twoQuestionBank)
   \<and> answers (ui (run [CategorySelect ''Algorithms'', AnswerSelect 1, Settle, Settle]
       (initialWorld twoQuestionBank))) = [1]
   \<and> answers (ui (run [CategorySelect ''Algorithms'', AnswerSelect 1, AnswerSelect 0, Settle, Settle]
       (initialWorld twoQuestionBank))) = [0]
   \<and> score (ui (run [CategorySelect ''Algorithms'', AnswerSelect 1, AnswerSelect 0, Settle, Settle]
       (initialWorld twoQuestionBank))) = 1"
  by (simp add: initialWorld_def initialState_def twoQuestionBank_def handleCategorySelect_def
      restartQuiz_def handleAnswerSelect_def answerTimeout_def saveScoreToFirebase_def
      screen_def exampleQuestion_def otherQuestion_def Let_def)

text \<open>
  C2, amended. When no timer is waiting and \<^verbatim>\<open>handleAnswerSelect\<close> is called
  once or several times before the first of the half-second timers runs, then,
  after all these timers have run, the answers are the ones from before with one
  entry added, the index of the last call: the answers never gain two entries
  for one question, and no call is ignored.
\<close>

theorem answers_gain_one_entry:
  assumes "timeouts w = []" and "is \<noteq> []"
  shows "answers (ui (run (map AnswerSelect is @ replicate (length is) Settle) w))
           = answers (ui w) @ [last is]
    \<and> length (answers (ui (run (map AnswerSelect is @ replicate (length is) Settle) w)))
           = length (answers (ui w)) + 1
    \<and> timeouts (run (map AnswerSelect is @ replicate (length is) Settle) w) = []"
proof -
  let ?w1 = "run (map AnswerSelect is) w"
  from answerSelects_wait [of "is" w] assms(1) obtain ts where ts:
    "timeouts ?w1 = ts" "map fst ts = is" "\<forall>t\<in>set ts. answers (snd t) = answers (ui w)"
    by auto
  from ts(2) assms(2) have ne: "ts \<noteq> []" by auto
  from ts(2) have len: "length ts = length is" by (metis length_map)
  from ts(2) ne have la: "fst (last ts) = last is" by (metis last_map)
  from settles_keep_last [OF ts(1) ne ts(3)] show ?thesis
    by (simp add: run_append len la)
qed

theorem answers_gain_one_entry_witness:
  "answers (ui (run (map AnswerSelect [1, 0] @ replicate (length [1, 0 :: int]) Settle)
       (step (CategorySelect ''Algorithms'') (initialWorld twoQuestionBank)))) = [0]"
  using answers_gain_one_entry
    [of "step (CategorySelect ''Algorithms'') (initialWorld twoQuestionBank)" "[1, 0]"]
  by (simp add: initialWorld_def initialState_def twoQuestionBank_def handleCategorySelect_def
      restartQuiz_def)

section \<open>A category without questions\<close>

text \<open>
  C3. The remote store delivers a bank whose category \<open>Empty\<close> has no questions,
  and \<open>Empty\<close> is selected. Nothing fails: the countdown runs, its ten ticks and
  the half-second timer complete the session, a record of score 0 out of 0 is
  pushed. The completed screen then computes its percentage as \<open>0 / 0 * 100\<close>
  and shows \<^verbatim>\<open>NaN\<close>, where the claim asks for 0.
\<close>

theorem empty_category_shows_NaN:
  "screen (ui (run (RemoteValue (ObjectData emptyCategoryBank) # CategorySelect ''Empty''
                     # replicate 10 Tick @ [Settle]) (initialWorld exampleBank)))
     = CompletedScreen
   \<and> percentage (ui (run (RemoteValue (ObjectData emptyCategoryBank) # CategorySelect ''Empty''
                     # replicate 10 Tick @ [Settle]) (initialWorld exampleBank)))
     = TextNaN
   \<and> scores (run (RemoteValue (ObjectData emptyCategoryBank) # CategorySelect ''Empty''
                     # replicate 10 Tick @ [Settle]) (initialWorld exampleBank))
     = [\<lparr>category = Some ''Empty'', finalScore = 0, totalQuestions = 0\<rparr>]"
proof -
  let ?w1 = "run [RemoteValue (ObjectData emptyCategoryBank), CategorySelect ''Empty'']
               (initialWorld exampleBank)"
  have w1: "selectedCategory (ui ?w1) = Some ''Empty''" "\<not> isQuizCompleted (ui ?w1)"
    "timeLeft (ui ?w1) = 10" "timeouts ?w1 = []" "quizData (ui ?w1) = []" "scores ?w1 = []"
    "currentQuestionIndex (ui ?w1) = 0" "answers (ui ?w1) = []"
    by (simp_all add: initialWorld_def initialState_def emptyCategoryBank_def onValue_def
        handleCategorySelect_def restartQuiz_def)
  have exp: "run (replicate 10 Tick) ?w1
      = handleAnswerSelect (- 1) (?w1\<lparr>ui := (ui ?w1)\<lparr>timeLeft := 0\<rparr>\<rparr>)"
    using w1 by (intro countdown_expires) simp_all
  have "run (RemoteValue (ObjectData emptyCategoryBank) # CategorySelect ''Empty''
                     # replicate 10 Tick @ [Settle]) (initialWorld exampleBank)
        = step Settle (run (replicate 10 Tick) ?w1)"
    by (simp only: run.simps run_append)
  then show ?thesis
    unfolding exp using w1
    by (simp add: handleAnswerSelect_def answerTimeout_def saveScoreToFirebase_def Let_def
        screen_def percentage_def percentText_def jsDivide_def)
qed

section \<open>The pushed records\<close>

lemma step_scores:
  "scores (step e w) = scores w
   \<or> (\<exists>index cap rest. e = Settle \<and> timeouts w = (index, cap) # rest
        \<and> scores (step e w) = scores w @
             [\<lparr>category = selectedCategory cap,
               finalScore = int (countCorrect (quizData cap) (answers cap @ [index])),
               totalQuestions = length (quizData cap)\<rparr>])"
proof (cases e)
  case Settle
  show ?thesis
  proof (cases "timeouts w")
    case Nil
    with Settle show ?thesis by simp
  next
    case (Cons t rest)
    obtain i cap where "t = (i, cap)" by (cases t)
    with Settle Cons show ?thesis
      by (simp add: answerTimeout_def saveScoreToFirebase_def Let_def forEachScore_countCorrect)
  qed
next
  case Tick
  then show ?thesis by (simp add: timerTick_def timerEffect_def handleAnswerSelect_def)
qed (simp_all add: handleAnswerSelect_def)

lemma step_recordOk:
  assumes "\<forall>r\<in>set (scores w). recordOk r"
  shows "\<forall>r\<in>set (scores (step e w)). recordOk r"
  using step_scores [of e w] assms countCorrect_le
  by (auto simp: recordOk_def)

lemma run_recordOk:
  "\<forall>r\<in>set (scores w). recordOk r \<Longrightarrow> \<forall>r\<in>set (scores (run es w)). recordOk r"
proof (induction es arbitrary: w)
  case Nil
  then show ?case by simp
next
  case (Cons e es)
  from Cons.prems have "\<forall>r\<in>set (scores (step e w)). recordOk r"
    by (rule step_recordOk)
  then have "\<forall>r\<in>set (scores (run es (step e w))). recordOk r"
    by (rule Cons.IH)
  then show ?case by simp
qed

text \<open>
  C10. An event either pushes nothing, or it is a half-second timer running, and
  then it pushes one record: its category and its number of questions are the
  selected category and the length of the question list of the session in which
  the answer was given (the state the timer has captured), and its score is the
  number of correct answers among that session's answers and the new one, which
  is at most the number of questions. So every record pushed in any course of
  events from the first render has a score between 0 and its number of questions.
\<close>

theorem score_record_consistent:
  "(scores (step e w) = scores w
    \<or> (\<exists>index cap rest. e = Settle \<and> timeouts w = (index, cap) # rest
        \<and> scores (step e w) = scores w @
             [\<lparr>category = selectedCategory cap,
               finalScore = int (countCorrect (quizData cap) (answers cap @ [index])),
               totalQuestions = length (quizData cap)\<rparr>]
        \<and> countCorrect (quizData cap) (answers cap @ [index]) \<le> length (quizData cap)))
   \<and> (\<forall>r\<in>set (scores (run es (initialWorld QuizData))).
         0 \<le> finalScore r \<and> finalScore r \<le> int (totalQuestions r))"
proof -
  have "\<forall>r\<in>set (scores (run es (initialWorld QuizData))). recordOk r"
    by (rule run_recordOk) (simp add: initialWorld_def)
  then show ?thesis
    using step_scores [of e w] countCorrect_le by (auto simp: recordOk_def)
qed

theorem score_record_consistent_witness:
  "\<lparr>category = Some ''Algorithms'', finalScore = 1, totalQuestions = 1\<rparr>
     \<in> set (scores (run [CategorySelect ''Algorithms'', AnswerSelect 1, Settle]
                       (initialWorld exampleBank)))
   \<and> 0 \<le> finalScore \<lparr>category = Some ''Algorithms'', finalScore = 1, totalQuestions = 1\<rparr>
   \<and> finalScore \<lparr>category = Some ''Algorithms'', finalScore = 1, totalQuestions = 1\<rparr>
       \<le> int (totalQuestions \<lparr>category = Some ''Algorithms'', finalScore = 1, totalQuestions = 1\<rparr>)"
proof -
  let ?r = "\<lparr>category = Some ''Algorithms'', finalScore = 1, totalQuestions = 1\<rparr>"
  let ?w = "run [CategorySelect ''Algorithms'', AnswerSelect 1, Settle] (initialWorld exampleBank)"
  have m: "?r \<in> set (scores ?w)"
    by (simp add: initialWorld_def initialState_def exampleBank_def exampleQuestion_def
        handleCategorySelect_def restartQuiz_def handleAnswerSelect_def answerTimeout_def
        saveScoreToFirebase_def Let_def)
  from score_record_consistent [of Settle "initialWorld exampleBank"
      "[CategorySelect ''Algorithms'', AnswerSelect 1, Settle]" exampleBank]
  have "\<forall>r\<in>set (scores ?w). 0 \<le> finalScore r \<and> finalScore r \<le> int (totalQuestions r)"
    by (rule conjunct2)
  from bspec [OF this m] m show ?thesis by (simp only: simp_thms)
qed

end
